theory Spec2Isabelle
  imports Main "HOL-Library.Word"
begin

section \<open>The OpenGL renderer of openrw: data model\<close>

text \<open>
  The development follows \<^verbatim>\<open>rwengine/src/render/OpenGLRenderer.hpp\<close>. Machine
  types: \<^verbatim>\<open>GLuint\<close> and \<^verbatim>\<open>unsigned int\<close> are 32-bit words, \<^verbatim>\<open>GLint\<close> and
  \<^verbatim>\<open>GLsizei\<close> 32-bit words read in two's complement (\<open>sint\<close>; -1 is the word of
  all ones), \<^verbatim>\<open>GLuint64\<close> and \<^verbatim>\<open>size_t\<close> 64-bit words. A pointer is its
  address, \<^verbatim>\<open>nullptr\<close> the address 0. The counters \<^verbatim>\<open>drawCounter\<close> and
  \<^verbatim>\<open>currentDebugDepth\<close> are C++ \<^verbatim>\<open>int\<close>s that no operation here brings near
  their limits; they are integers.
\<close>

type_synonym GLuint = "32 word"
type_synonym GLint = "32 word"
type_synonym GLsizei = "32 word"
type_synonym GLuint64 = "64 word"
type_synonym size_t = "64 word"
type_synonym ptr = "64 word"

definition nullptr :: ptr where
  "nullptr = 0"

text \<open>\<^verbatim>\<open>#define MAX_DEBUG_DEPTH 5\<close> (line 22).\<close>

definition MAX_DEBUG_DEPTH :: int where
  "MAX_DEBUG_DEPTH = 5"

text \<open>\<^verbatim>\<open>enum class BlendMode\<close> and \<^verbatim>\<open>enum class DepthMode\<close> (lines 60-69).\<close>

datatype BlendMode = BLEND_NONE | BLEND_ALPHA | BLEND_ADDITIVE

datatype DepthMode = OFF | LESS

text \<open>
  \<^verbatim>\<open>Renderer::DrawParameters\<close> (lines 84-108). The fields carry the prefix
  \<^verbatim>\<open>dp_\<close>: \<^verbatim>\<open>blendMode\<close>, \<^verbatim>\<open>depthMode\<close> and \<^verbatim>\<open>textures\<close> are also fields of
  the renderer and of \<^verbatim>\<open>ProfileInfo\<close>. \<^verbatim>\<open>textures\<close> is a
  \<^verbatim>\<open>std::array<GLuint,2>\<close>, a pair here. The material scalars (colour, ambient,
  diffuse, visibility) only travel into the uniform block, whose bytes are not
  modelled.
\<close>

record DrawParameters =
  dp_count :: size_t
  dp_start :: size_t
  dp_textures :: "GLuint \<times> GLuint"
  dp_blendMode :: BlendMode
  dp_depthMode :: DepthMode
  dp_depthWrite :: bool

text \<open>
  \<^verbatim>\<open>Renderer::RenderInstruction\<close> (lines 116-128); the model matrix is opaque.
\<close>

record RenderInstruction =
  sortKey :: "64 word"
  dbuff :: ptr
  drawInfo :: DrawParameters

text \<open>\<^verbatim>\<open>Renderer::ProfileInfo\<close> (lines 224-232).\<close>

record ProfileInfo =
  timerStart :: GLuint64
  duration :: GLuint64
  primitives :: "32 word"
  draws :: "32 word"
  textures :: "32 word"
  buffers :: "32 word"
  uploads :: "32 word"

text \<open>\<^verbatim>\<open>OpenGLRenderer::Buffer\<close> (lines 333-340).\<close>

record Buffer =
  name :: GLuint
  currentEntry :: GLuint
  entryCount :: GLuint
  entrySize :: GLuint
  bufferSize :: GLsizei

text \<open>
  The renderer: the counters of \<^verbatim>\<open>Renderer\<close> (lines 250-252), the two uniform
  buffers (lines 346-347), the state cache (lines 349-357) and the profiling stack
  (lines 426-430). \<^verbatim>\<open>currentTextures\<close> is a \<^verbatim>\<open>std::map<GLuint, GLuint>\<close>.
  \<^verbatim>\<open>currentDebugDepth\<close> exists under \<^verbatim>\<open>RW_GRAPHICS_STATS\<close>; the model is the build
  with that macro defined. \<^verbatim>\<open>profileInfo\<close> is a C array of \<^verbatim>\<open>MAX_DEBUG_DEPTH\<close>
  elements, a list whose length is the array's size.
\<close>

record OpenGLRenderer =
  drawCounter :: int
  textureCounter :: int
  bufferCounter :: int
  UBOObject :: Buffer
  UBOScene :: Buffer
  currentDbuff :: ptr
  currentProgram :: ptr
  blendMode :: BlendMode
  depthMode :: DepthMode
  depthWriteEnabled :: bool
  currentUBO :: GLuint
  currentUnit :: GLuint
  currentTextures :: "GLuint \<rightharpoonup> GLuint"
  profileInfo :: "ProfileInfo list"
  debugQuery :: GLuint
  currentDebugDepth :: int

text \<open>\<^verbatim>\<open>OpenGLRenderer::OpenGLShaderProgram\<close> (lines 258-285).\<close>

record OpenGLShaderProgram =
  program :: GLuint
  uniforms :: "string \<rightharpoonup> GLint"

subsection \<open>The device\<close>

text \<open>
  The graphics device is outside the program. Every call the code makes to it is
  recorded, in order, as a value of \<open>GLcall\<close>; an operation returns the calls it
  emitted beside the new state. The first constructors are the GL entry points the
  header calls by name.
\<close>

datatype GLenum = GL_BLEND | GL_DEPTH_TEST | GL_SRC_ALPHA | GL_ONE_MINUS_SRC_ALPHA
  | GL_ONE | GL_LESS | GL_UNIFORM_BUFFER

datatype GLcall =
    glEnable GLenum
  | glDisable GLenum
  | glBlendFunc GLenum GLenum
  | glDepthFunc GLenum
  | glDepthMask bool
  | glBindBuffer GLenum GLuint
  | glGetUniformLocation GLuint string
  | DevBindTexture GLuint GLuint
  | DevBindGeometryBuffer ptr
  | DevUploadBufferRegion GLuint GLuint size_t
  | DevDrawIndexed size_t size_t
  | DevBeginTimer
  | DevEndTimer

text \<open>
  The last six constructors stand for the device commands of functions that the header
  only declares; their names follow the command list of section 6 of the specification
  (bind texture to unit, bind vertex/index buffer, upload data into buffer region, issue
  indexed draw, begin/end timer query).
\<close>

text \<open>
  The member initialisers of the header (lines 250-252, 346-357, 429): the state of a
  renderer before any call. \<^verbatim>\<open>debugQuery\<close> has no initialiser and is taken as 0.
\<close>

definition Buffer_init :: Buffer where
  "Buffer_init = \<lparr>name = 0, currentEntry = 0, entryCount = 0, entrySize = 0, bufferSize = 0\<rparr>"

definition ProfileInfo_init :: ProfileInfo where
  "ProfileInfo_init = \<lparr>timerStart = 0, duration = 0, primitives = 0, draws = 0,
     textures = 0, buffers = 0, uploads = 0\<rparr>"

definition OpenGLRenderer_init :: OpenGLRenderer where
  "OpenGLRenderer_init = \<lparr>drawCounter = 0, textureCounter = 0, bufferCounter = 0,
     UBOObject = Buffer_init, UBOScene = Buffer_init,
     currentDbuff = nullptr, currentProgram = nullptr,
     blendMode = BLEND_NONE, depthMode = OFF, depthWriteEnabled = False,
     currentUBO = 0, currentUnit = 0, currentTextures = Map.empty,
     profileInfo = replicate (nat MAX_DEBUG_DEPTH) ProfileInfo_init,
     debugQuery = 0, currentDebugDepth = 0\<rparr>"

section \<open>The state cache\<close>

text \<open>
  \<^verbatim>\<open>setBlend\<close> (lines 360-383). The \<^verbatim>\<open>default\<close> branch of the switch
  (\<^verbatim>\<open>assert(false)\<close>) is taken by no enumerator of \<^verbatim>\<open>BlendMode\<close>.
\<close>

definition setBlend :: "BlendMode \<Rightarrow> OpenGLRenderer \<Rightarrow> OpenGLRenderer \<times> GLcall list" where
  "setBlend mode s =
     (let enable = (if mode \<noteq> BLEND_NONE \<and> blendMode s = BLEND_NONE
                    then [glEnable GL_BLEND] else []);
          func = (if mode \<noteq> blendMode s
                  then (case mode of
                          BLEND_NONE \<Rightarrow> [glDisable GL_BLEND]
                        | BLEND_ALPHA \<Rightarrow> [glBlendFunc GL_SRC_ALPHA GL_ONE_MINUS_SRC_ALPHA]
                        | BLEND_ADDITIVE \<Rightarrow> [glBlendFunc GL_ONE GL_ONE])
                  else [])
      in (s\<lparr>blendMode := mode\<rparr>, enable @ func))"

text \<open>\<^verbatim>\<open>setDepthMode\<close> (lines 385-394).\<close>

definition setDepthMode :: "DepthMode \<Rightarrow> OpenGLRenderer \<Rightarrow> OpenGLRenderer \<times> GLcall list" where
  "setDepthMode mode s =
     (if mode \<noteq> depthMode s
      then (s\<lparr>depthMode := mode\<rparr>,
            (if depthMode s = OFF then [glEnable GL_DEPTH_TEST] else []) @
            (case mode of
               OFF \<Rightarrow> [glDisable GL_DEPTH_TEST]
             | LESS \<Rightarrow> [glDepthFunc GL_LESS]))
      else (s, []))"

text \<open>\<^verbatim>\<open>setDepthWrite\<close> (lines 396-401).\<close>

definition setDepthWrite :: "bool \<Rightarrow> OpenGLRenderer \<Rightarrow> OpenGLRenderer \<times> GLcall list" where
  "setDepthWrite enable s =
     (if enable \<noteq> depthWriteEnabled s
      then (s\<lparr>depthWriteEnabled := enable\<rparr>, [glDepthMask enable])
      else (s, []))"

text \<open>\<^verbatim>\<open>attachUBO\<close> (lines 416-421).\<close>

definition attachUBO :: "GLuint \<Rightarrow> OpenGLRenderer \<Rightarrow> OpenGLRenderer \<times> GLcall list" where
  "attachUBO buffer s =
     (if currentUBO s \<noteq> buffer
      then (s\<lparr>currentUBO := buffer\<rparr>, [glBindBuffer GL_UNIFORM_BUFFER buffer])
      else (s, []))"

text \<open>
  Modelled from the spec: \<^verbatim>\<open>useTexture(GLuint unit, GLuint tex)\<close> is declared at line
  344 and its body is not in the header. Section 4.1 of the specification: the call
  compares the requested texture against the cached value for the unit and only emits
  the device call (bind texture to unit) when different, then updates the cache. A unit
  with no entry in \<^verbatim>\<open>currentTextures\<close> has no cached texture.
\<close>

definition useTexture :: "GLuint \<Rightarrow> GLuint \<Rightarrow> OpenGLRenderer \<Rightarrow> OpenGLRenderer \<times> GLcall list" where
  "useTexture unit tex s =
     (if currentTextures s unit \<noteq> Some tex
      then (s\<lparr>currentTextures := (currentTextures s)(unit \<mapsto> tex)\<rparr>, [DevBindTexture unit tex])
      else (s, []))"

subsection \<open>Sequences of state-setting calls\<close>

datatype StateCall =
    SetBlend BlendMode
  | SetDepthMode DepthMode
  | SetDepthWrite bool
  | UseTexture GLuint GLuint

fun stateCall :: "StateCall \<Rightarrow> OpenGLRenderer \<Rightarrow> OpenGLRenderer \<times> GLcall list" where
  "stateCall (SetBlend m) s = setBlend m s"
| "stateCall (SetDepthMode m) s = setDepthMode m s"
| "stateCall (SetDepthWrite b) s = setDepthWrite b s"
| "stateCall (UseTexture u t) s = useTexture u t s"

fun stateCalls :: "StateCall list \<Rightarrow> OpenGLRenderer \<Rightarrow> OpenGLRenderer \<times> GLcall list" where
  "stateCalls [] s = (s, [])"
| "stateCalls (c # cs) s =
     (let r = stateCall c s; r' = stateCalls cs (fst r) in (fst r', snd r @ snd r'))"

text \<open>
  Whether the value a call requests differs from the value cached for its slot, and
  whether the call switches a device capability on (blending out of \<^verbatim>\<open>BLEND_NONE\<close>, the
  depth test out of \<^verbatim>\<open>OFF\<close>).
\<close>

fun differs :: "StateCall \<Rightarrow> OpenGLRenderer \<Rightarrow> bool" where
  "differs (SetBlend m) s = (m \<noteq> blendMode s)"
| "differs (SetDepthMode m) s = (m \<noteq> depthMode s)"
| "differs (SetDepthWrite b) s = (b \<noteq> depthWriteEnabled s)"
| "differs (UseTexture u t) s = (currentTextures s u \<noteq> Some t)"

fun enables :: "StateCall \<Rightarrow> OpenGLRenderer \<Rightarrow> bool" where
  "enables (SetBlend m) s = (m \<noteq> BLEND_NONE \<and> blendMode s = BLEND_NONE)"
| "enables (SetDepthMode m) s = (m \<noteq> OFF \<and> depthMode s = OFF)"
| "enables (SetDepthWrite b) s = False"
| "enables (UseTexture u t) s = False"

text \<open>
  The number of calls of a sequence that satisfy a condition on the cache as it stands
  when the call is made.
\<close>

fun countCalls :: "(StateCall \<Rightarrow> OpenGLRenderer \<Rightarrow> bool) \<Rightarrow> StateCall list \<Rightarrow> OpenGLRenderer \<Rightarrow> nat" where
  "countCalls P [] s = 0"
| "countCalls P (c # cs) s =
     (if P c s then 1 else 0) + countCalls P cs (fst (stateCall c s))"

subsection \<open>Sequences of cache updates\<close>

datatype CacheCall =
    CallSetBlend BlendMode
  | CallSetDepthMode DepthMode
  | CallSetDepthWrite bool
  | CallAttachUBO GLuint

fun cacheCall :: "CacheCall \<Rightarrow> OpenGLRenderer \<Rightarrow> OpenGLRenderer \<times> GLcall list" where
  "cacheCall (CallSetBlend m) s = setBlend m s"
| "cacheCall (CallSetDepthMode m) s = setDepthMode m s"
| "cacheCall (CallSetDepthWrite b) s = setDepthWrite b s"
| "cacheCall (CallAttachUBO u) s = attachUBO u s"

fun cacheCalls :: "CacheCall list \<Rightarrow> OpenGLRenderer \<Rightarrow> OpenGLRenderer \<times> GLcall list" where
  "cacheCalls [] s = (s, [])"
| "cacheCalls (c # cs) s =
     (let r = cacheCall c s; r' = cacheCalls cs (fst r) in (fst r', snd r @ snd r'))"

text \<open>
  What the requests alone say the cache should hold: each request overwrites the field
  of its slot and touches no other field.
\<close>

fun requested :: "CacheCall \<Rightarrow> OpenGLRenderer \<Rightarrow> OpenGLRenderer" where
  "requested (CallSetBlend m) s = s\<lparr>blendMode := m\<rparr>"
| "requested (CallSetDepthMode m) s = s\<lparr>depthMode := m\<rparr>"
| "requested (CallSetDepthWrite b) s = s\<lparr>depthWriteEnabled := b\<rparr>"
| "requested (CallAttachUBO u) s = s\<lparr>currentUBO := u\<rparr>"

section \<open>Uniform locations of a shader program\<close>

text \<open>
  \<^verbatim>\<open>std::string::c_str()\<close> hands out a NUL-terminated C string; a \<^verbatim>\<open>std::string\<close>
  built from it, and the device reading it, see the characters before the first NUL.
\<close>

definition c_str :: "string \<Rightarrow> string" where
  "c_str nm = takeWhile (\<lambda>c. c \<noteq> CHR 0x00) nm"

text \<open>
  \<^verbatim>\<open>OpenGLShaderProgram::getUniformLocation\<close> (lines 274-284). The map is searched
  with \<^verbatim>\<open>uniforms.find(name.c_str())\<close>, a key built from the C string; a miss asks
  the device with \<^verbatim>\<open>name.c_str()\<close> and stores the answer under \<^verbatim>\<open>uniforms[name]\<close>,
  the whole string. The device's answer is the parameter \<open>gl\<close>, a function of the
  program and the C string; it may differ from call to call. The result is the
  location returned, the program afterwards and the device calls made.
\<close>

definition getUniformLocation ::
  "(GLuint \<Rightarrow> string \<Rightarrow> GLint) \<Rightarrow> string \<Rightarrow> OpenGLShaderProgram
     \<Rightarrow> GLint \<times> OpenGLShaderProgram \<times> GLcall list" where
  "getUniformLocation gl nm p =
     (case uniforms p (c_str nm) of
        None \<Rightarrow>
          (let loc = gl (program p) (c_str nm)
           in (loc, p\<lparr>uniforms := (uniforms p)(nm \<mapsto> loc)\<rparr>,
               [glGetUniformLocation (program p) (c_str nm)]))
      | Some loc \<Rightarrow> (loc, p, []))"

text \<open>
  A run of lookups, each with the answer the device would give at that moment; the
  program after the run.
\<close>

fun lookups :: "((GLuint \<Rightarrow> string \<Rightarrow> GLint) \<times> string) list \<Rightarrow> OpenGLShaderProgram
     \<Rightarrow> OpenGLShaderProgram" where
  "lookups [] p = p"
| "lookups ((gl, nm) # cs) p = lookups cs (fst (snd (getUniformLocation gl nm p)))"

section \<open>Uniform streaming buffers\<close>

text \<open>
  Failures are values: a call that the specification rejects as a fatal precondition
  violation, or an access outside the \<^verbatim>\<open>profileInfo\<close> array, ends the call path with
  an \<open>error\<close>.
\<close>

datatype error =
    UploadTooLarge
  | DebugDepthExceeded
  | DebugDepthUnderflow
  | ArrayOutOfBounds

text \<open>
  Modelled from the spec: \<^verbatim>\<open>uploadUBOEntry(Buffer& buffer, const void* data,
  size_t size)\<close> is declared at line 423 and its body is not in the header. Section 4.2
  of the specification: the upload writes \<^verbatim>\<open>size\<close> bytes into the slot at
  \<^verbatim>\<open>currentEntry\<close>, fails if \<^verbatim>\<open>size > entrySize\<close>, and advances
  \<^verbatim>\<open>currentEntry = (currentEntry + 1) mod entryCount\<close> after a successful write.
  \<^verbatim>\<open>currentEntry\<close>, \<^verbatim>\<open>entryCount\<close> and \<^verbatim>\<open>entrySize\<close> are \<^verbatim>\<open>GLuint\<close>s (lines
  335-338) and \<^verbatim>\<open>size\<close> a \<^verbatim>\<open>size_t\<close>, so the comparison is made at 64 bits and the
  advance at 32. The bytes written are not modelled; the device call names the buffer,
  the slot and the size. The result is the outcome and the buffer afterwards, which a
  failed call leaves as it was. The data model keeps \<^verbatim>\<open>currentEntry\<close> below
  \<^verbatim>\<open>entryCount\<close>, so a buffer in use has \<^verbatim>\<open>entryCount\<close> above 0.
\<close>

definition uploadUBOEntry :: "Buffer \<Rightarrow> size_t \<Rightarrow> (error + GLcall list) \<times> Buffer" where
  "uploadUBOEntry buffer sz =
     (if ucast (entrySize buffer) < sz
      then (Inl UploadTooLarge, buffer)
      else (Inr [DevUploadBufferRegion (name buffer) (currentEntry buffer) sz],
            buffer\<lparr>currentEntry := (currentEntry buffer + 1) mod entryCount buffer\<rparr>))"

text \<open>
  A run of uploads into one buffer, with the size of each; it stops at the first upload
  that fails.
\<close>

fun uploadEntries :: "size_t list \<Rightarrow> Buffer \<Rightarrow> (error + GLcall list) \<times> Buffer" where
  "uploadEntries [] b = (Inr [], b)"
| "uploadEntries (sz # szs) b =
     (case uploadUBOEntry b sz of
        (Inl e, b') \<Rightarrow> (Inl e, b')
      | (Inr c, b') \<Rightarrow>
          (case uploadEntries szs b' of
             (Inl e, b'') \<Rightarrow> (Inl e, b'')
           | (Inr c', b'') \<Rightarrow> (Inr (c @ c'), b'')))"

section \<open>Profiling scopes, uploads and draws\<close>

text \<open>
  An access \<^verbatim>\<open>profileInfo[i]\<close> that changes the element: outside the array the C++ is
  undefined, here it is the error \<open>ArrayOutOfBounds\<close>.
\<close>

definition profileInfo_at ::
  "int \<Rightarrow> (ProfileInfo \<Rightarrow> ProfileInfo) \<Rightarrow> OpenGLRenderer \<Rightarrow> error + OpenGLRenderer" where
  "profileInfo_at i f s =
     (if 0 \<le> i \<and> i < int (length (profileInfo s))
      then Inr (s\<lparr>profileInfo := (profileInfo s)[nat i := f (profileInfo s ! nat i)]\<rparr>)
      else Inl ArrayOutOfBounds)"

text \<open>
  The \<^verbatim>\<open>Buffer&\<close> argument of \<^verbatim>\<open>uploadUBO\<close> is one of the renderer's two buffers.
\<close>

datatype UBO = ObjectUBO | SceneUBO

fun getUBO :: "UBO \<Rightarrow> OpenGLRenderer \<Rightarrow> Buffer" where
  "getUBO ObjectUBO s = UBOObject s"
| "getUBO SceneUBO s = UBOScene s"

fun putUBO :: "UBO \<Rightarrow> Buffer \<Rightarrow> OpenGLRenderer \<Rightarrow> OpenGLRenderer" where
  "putUBO ObjectUBO b s = s\<lparr>UBOObject := b\<rparr>"
| "putUBO SceneUBO b s = s\<lparr>UBOScene := b\<rparr>"

text \<open>
  \<^verbatim>\<open>uploadUBO\<close> (lines 403-411), with \<^verbatim>\<open>RW_GRAPHICS_STATS\<close> defined. The template
  argument enters through \<^verbatim>\<open>sizeof(T)\<close> alone, the parameter \<open>sizeofT\<close>. A failed
  \<^verbatim>\<open>uploadUBOEntry\<close> ends the call path.
\<close>

definition uploadUBO :: "UBO \<Rightarrow> size_t \<Rightarrow> OpenGLRenderer \<Rightarrow> error + OpenGLRenderer \<times> GLcall list" where
  "uploadUBO buffer sizeofT s =
     (case uploadUBOEntry (getUBO buffer s) sizeofT of
        (Inl e, b) \<Rightarrow> Inl e
      | (Inr c, b) \<Rightarrow>
          (let s1 = putUBO buffer b s
           in if currentDebugDepth s1 > 0
              then (case profileInfo_at (currentDebugDepth s1 - 1)
                           (\<lambda>info. info\<lparr>uploads := uploads info + 1\<rparr>) s1 of
                      Inl e \<Rightarrow> Inl e
                    | Inr s2 \<Rightarrow> Inr (s2, c))
              else Inr (s1, c)))"

text \<open>
  Modelled from the spec: \<^verbatim>\<open>pushDebugGroup\<close> and \<^verbatim>\<open>popDebugGroup\<close> are declared at
  lines 328-330 and their bodies are not in the header. Section 4.4 of the
  specification: a push is valid only if the depth is below the maximum depth (5),
  otherwise it is a fatal precondition violation; it resets the \<^verbatim>\<open>ProfileInfo\<close> at the
  new depth and starts a GPU timer. A pop is valid only if the depth is above 0; it ends
  the GPU timer, finalizes the \<^verbatim>\<open>ProfileInfo\<close> at the current depth, decrements the
  depth and returns the finalized info. The scope at depth \<open>d\<close> has the element
  \<open>d - 1\<close> of the array, as in \<^verbatim>\<open>uploadUBO\<close> (line 408). Finalizing stores the
  timer's reading, the parameter \<open>elapsed\<close>, in \<^verbatim>\<open>duration\<close>; the specification
  names no other change to the info or to another scope's info.
\<close>

definition pushDebugGroup :: "string \<Rightarrow> OpenGLRenderer \<Rightarrow> error + OpenGLRenderer \<times> GLcall list" where
  "pushDebugGroup title s =
     (if currentDebugDepth s < MAX_DEBUG_DEPTH
      then (case profileInfo_at (currentDebugDepth s) (\<lambda>info. ProfileInfo_init) s of
              Inl e \<Rightarrow> Inl e
            | Inr s1 \<Rightarrow> Inr (s1\<lparr>currentDebugDepth := currentDebugDepth s1 + 1\<rparr>, [DevBeginTimer]))
      else Inl DebugDepthExceeded)"

definition popDebugGroup ::
  "GLuint64 \<Rightarrow> OpenGLRenderer \<Rightarrow> error + ProfileInfo \<times> OpenGLRenderer \<times> GLcall list" where
  "popDebugGroup elapsed s =
     (if currentDebugDepth s > 0
      then (case profileInfo_at (currentDebugDepth s - 1)
                   (\<lambda>info. info\<lparr>duration := elapsed\<rparr>) s of
              Inl e \<Rightarrow> Inl e
            | Inr s1 \<Rightarrow>
                Inr (profileInfo s1 ! nat (currentDebugDepth s - 1),
                     s1\<lparr>currentDebugDepth := currentDebugDepth s1 - 1\<rparr>, [DevEndTimer]))
      else Inl DebugDepthUnderflow)"

text \<open>
  Modelled from the spec: \<^verbatim>\<open>useDrawBuffer(DrawBuffer* dbuff)\<close> is declared at line 342
  and its body is not in the header. Sections 4.1 and 4.3 of the specification: the
  geometry buffer is bound if it is different from the cached one, and the cache is
  updated.
\<close>

definition useDrawBuffer :: "ptr \<Rightarrow> OpenGLRenderer \<Rightarrow> OpenGLRenderer \<times> GLcall list" where
  "useDrawBuffer d s =
     (if currentDbuff s \<noteq> d
      then (s\<lparr>currentDbuff := d\<rparr>, [DevBindGeometryBuffer d])
      else (s, []))"

text \<open>
  Modelled from the spec: \<^verbatim>\<open>draw\<close> and \<^verbatim>\<open>drawBatched\<close> are declared at lines 319-324
  and their bodies are not in the header. Section 4.3 of the specification: \<^verbatim>\<open>draw\<close>
  binds the geometry buffer if different from the cache, applies the blend, depth,
  depth-write and texture state of the parameters through the state cache, uploads an
  \<^verbatim>\<open>ObjectUniformData\<close> block through the streaming buffer, issues one indexed draw
  over \<^verbatim>\<open>[start, start + count)\<close>, and increments the per-frame draw counter and, if
  a profiling scope is active, the current scope's draw and upload counters (the upload
  counter inside \<^verbatim>\<open>uploadUBO\<close>). \<^verbatim>\<open>drawBatched\<close> applies \<^verbatim>\<open>draw\<close> to each
  instruction of the list in order. \<open>objSize\<close> is \<^verbatim>\<open>sizeof(ObjectUniformData)\<close>; the
  two textures of the parameters go to the units 0 and 1.
\<close>

definition draw ::
  "size_t \<Rightarrow> ptr \<Rightarrow> DrawParameters \<Rightarrow> OpenGLRenderer \<Rightarrow> error + OpenGLRenderer \<times> GLcall list" where
  "draw objSize d p s =
     (let r1 = useDrawBuffer d s;
          r2 = setBlend (dp_blendMode p) (fst r1);
          r3 = setDepthMode (dp_depthMode p) (fst r2);
          r4 = setDepthWrite (dp_depthWrite p) (fst r3);
          r5 = useTexture 0 (fst (dp_textures p)) (fst r4);
          r6 = useTexture 1 (snd (dp_textures p)) (fst r5);
          cache = snd r1 @ snd r2 @ snd r3 @ snd r4 @ snd r5 @ snd r6
      in case uploadUBO ObjectUBO objSize (fst r6) of
           Inl e \<Rightarrow> Inl e
         | Inr (s7, c7) \<Rightarrow>
             (let s8 = s7\<lparr>drawCounter := drawCounter s7 + 1\<rparr>;
                  calls = cache @ c7 @ [DevDrawIndexed (dp_start p) (dp_count p)]
              in if currentDebugDepth s8 > 0
                 then (case profileInfo_at (currentDebugDepth s8 - 1)
                              (\<lambda>info. info\<lparr>draws := draws info + 1\<rparr>) s8 of
                         Inl e \<Rightarrow> Inl e
                       | Inr s9 \<Rightarrow> Inr (s9, calls))
                 else Inr (s8, calls)))"

fun drawBatched ::
  "size_t \<Rightarrow> RenderInstruction list \<Rightarrow> OpenGLRenderer \<Rightarrow> error + OpenGLRenderer \<times> GLcall list" where
  "drawBatched objSize [] s = Inr (s, [])"
| "drawBatched objSize (ri # ris) s =
     (case draw objSize (dbuff ri) (drawInfo ri) s of
        Inl e \<Rightarrow> Inl e
      | Inr (s1, c1) \<Rightarrow>
          (case drawBatched objSize ris s1 of
             Inl e \<Rightarrow> Inl e
           | Inr (s2, c2) \<Rightarrow> Inr (s2, c1 @ c2)))"

text \<open>
  The operations that touch the profiling stack, and a run of them from a state; the run
  stops at the first operation that fails.
\<close>

datatype ProfOp =
    OpPush string
  | OpPop GLuint64
  | OpUpload UBO size_t
  | OpDraw size_t ptr DrawParameters

fun profOp :: "ProfOp \<Rightarrow> OpenGLRenderer \<Rightarrow> error + OpenGLRenderer" where
  "profOp (OpPush title) s = map_sum id fst (pushDebugGroup title s)"
| "profOp (OpPop elapsed) s = map_sum id (\<lambda>r. fst (snd r)) (popDebugGroup elapsed s)"
| "profOp (OpUpload buffer sizeofT) s = map_sum id fst (uploadUBO buffer sizeofT s)"
| "profOp (OpDraw objSize d p) s = map_sum id fst (draw objSize d p s)"

fun profOps :: "ProfOp list \<Rightarrow> OpenGLRenderer \<Rightarrow> error + OpenGLRenderer" where
  "profOps [] s = Inr s"
| "profOps (x # xs) s = (case profOp x s of Inl e \<Rightarrow> Inl e | Inr s1 \<Rightarrow> profOps xs s1)"

text \<open>
  The profiling stack is well-formed: the depth is within \<open>[0, MAX_DEBUG_DEPTH]\<close> and
  the array has its declared size.
\<close>

definition debugStackOk :: "OpenGLRenderer \<Rightarrow> bool" where
  "debugStackOk s =
     (0 \<le> currentDebugDepth s \<and> currentDebugDepth s \<le> MAX_DEBUG_DEPTH \<and>
      length (profileInfo s) = nat MAX_DEBUG_DEPTH)"

text \<open>
  Counting the device calls of a kind in a list of calls: geometry-buffer binds,
  \<^verbatim>\<open>glEnable(GL_BLEND)\<close> toggles and \<^verbatim>\<open>glBlendFunc\<close> calls.
\<close>

fun isBufferBind :: "GLcall \<Rightarrow> bool" where
  "isBufferBind (DevBindGeometryBuffer d) = True"
| "isBufferBind c = False"

fun isBlendFunc :: "GLcall \<Rightarrow> bool" where
  "isBlendFunc (glBlendFunc a b) = True"
| "isBlendFunc c = False"

definition bufferBinds :: "GLcall list \<Rightarrow> nat" where
  "bufferBinds c = length (filter isBufferBind c)"

definition blendEnables :: "GLcall list \<Rightarrow> nat" where
  "blendEnables c = length (filter (\<lambda>x. x = glEnable GL_BLEND) c)"

definition blendFuncs :: "GLcall list \<Rightarrow> nat" where
  "blendFuncs c = length (filter isBlendFunc c)"

text \<open>The device calls of an operation that may fail; none are kept of a failed one.\<close>

definition callsOf :: "error + OpenGLRenderer \<times> GLcall list \<Rightarrow> GLcall list" where
  "callsOf r = (case r of Inl e \<Rightarrow> [] | Inr (s, c) \<Rightarrow> c)"

text \<open>
  A renderer whose object buffer has two slots of 128 bytes, and a draw instruction on
  the geometry buffer at address 4096 with a given blend mode; used where a statement is
  evaluated on a concrete input.
\<close>

definition exampleRenderer :: OpenGLRenderer where
  "exampleRenderer = OpenGLRenderer_init
     \<lparr>UBOObject := \<lparr>name = 1, currentEntry = 0, entryCount = 2, entrySize = 128, bufferSize = 256\<rparr>\<rparr>"

definition exampleDraw :: "BlendMode \<Rightarrow> RenderInstruction" where
  "exampleDraw m = \<lparr>sortKey = 1, dbuff = 4096,
     drawInfo = \<lparr>dp_count = 6, dp_start = 0, dp_textures = (0, 0), dp_blendMode = m,
       dp_depthMode = LESS, dp_depthWrite = True\<rparr>\<rparr>"

section \<open>Properties of the state cache\<close>

lemma stateCall_length:
  "length (snd (stateCall c s)) = (if differs c s then 1 else 0) + (if enables c s then 1 else 0)"
  by (cases c)
     (auto simp: setBlend_def setDepthMode_def setDepthWrite_def useTexture_def Let_def
           split: BlendMode.splits DepthMode.splits)

lemma stateCall_silent: "(snd (stateCall c s) = []) = (\<not> differs c s)"
proof -
  have "enables c s \<Longrightarrow> differs c s"
    by (cases c) auto
  then have "(length (snd (stateCall c s)) = 0) = (\<not> differs c s)"
    by (auto simp: stateCall_length)
  then show ?thesis
    by simp
qed

text \<open>
  C1, as stated: the number of device calls of a sequence equals the number of its calls
  whose requested value differs from the cached one. It fails on a single
  \<^verbatim>\<open>setBlend(BLEND_ALPHA)\<close> from the initial cache (\<^verbatim>\<open>BLEND_NONE\<close>): one call differs,
  and the device receives \<^verbatim>\<open>glEnable(GL_BLEND)\<close> and \<^verbatim>\<open>glBlendFunc\<close>.
\<close>

theorem C1_counterexample:
  "countCalls differs [SetBlend BLEND_ALPHA] OpenGLRenderer_init = 1 \<and>
   snd (stateCalls [SetBlend BLEND_ALPHA] OpenGLRenderer_init) =
     [glEnable GL_BLEND, glBlendFunc GL_SRC_ALPHA GL_ONE_MINUS_SRC_ALPHA] \<and>
   length (snd (stateCalls [SetBlend BLEND_ALPHA] OpenGLRenderer_init)) \<noteq>
     countCalls differs [SetBlend BLEND_ALPHA] OpenGLRenderer_init"
  by (simp add: setBlend_def OpenGLRenderer_init_def Let_def)

text \<open>
  C1, amended: for every sequence of \<^verbatim>\<open>setBlend\<close>, \<^verbatim>\<open>setDepthMode\<close>,
  \<^verbatim>\<open>setDepthWrite\<close> and \<^verbatim>\<open>useTexture\<close> calls from any cached state, the number of
  device calls equals the number of calls whose requested value differs from the value
  cached at the time of the call, plus the number of calls that switch blending on out
  of \<^verbatim>\<open>BLEND_NONE\<close> or the depth test on out of \<^verbatim>\<open>OFF\<close> (each of these emits the
  enable toggle beside the mode-specific call); a call whose requested value equals the
  cached value emits no device call.
\<close>

theorem C1_device_calls_counted:
  "length (snd (stateCalls cs s)) = countCalls differs cs s + countCalls enables cs s \<and>
   (snd (stateCall c s) = []) = (\<not> differs c s)"
proof
  show "length (snd (stateCalls cs s)) = countCalls differs cs s + countCalls enables cs s"
    by (induction cs arbitrary: s) (simp_all add: Let_def stateCall_length)
next
  show "(snd (stateCall c s) = []) = (\<not> differs c s)"
    by (rule stateCall_silent)
qed

theorem C1_device_calls_counted_witness:
  "length (snd (stateCalls [SetBlend BLEND_ALPHA, SetBlend BLEND_ALPHA, SetDepthWrite True,
       UseTexture 0 7, SetDepthMode LESS, SetBlend BLEND_ADDITIVE] OpenGLRenderer_init)) = 7 \<and>
   snd (stateCall (SetDepthWrite False) OpenGLRenderer_init) = []"
proof -
  let ?cs = "[SetBlend BLEND_ALPHA, SetBlend BLEND_ALPHA, SetDepthWrite True,
       UseTexture 0 7, SetDepthMode LESS, SetBlend BLEND_ADDITIVE]"
  have "countCalls differs ?cs OpenGLRenderer_init + countCalls enables ?cs OpenGLRenderer_init = 7"
    by (simp add: setBlend_def setDepthMode_def setDepthWrite_def useTexture_def
        OpenGLRenderer_init_def Let_def)
  moreover have "\<not> differs (SetDepthWrite False) OpenGLRenderer_init"
    by (simp add: OpenGLRenderer_init_def)
  ultimately show ?thesis
    using C1_device_calls_counted [of ?cs OpenGLRenderer_init "SetDepthWrite False"]
    by simp
qed
text \<open>
  C2: \<^verbatim>\<open>setBlend\<close> issues \<^verbatim>\<open>glEnable(GL_BLEND)\<close> exactly when the cached mode is
  \<^verbatim>\<open>BLEND_NONE\<close> and the requested one is not (once, whichever mode is requested), and
  \<^verbatim>\<open>setDepthMode\<close> issues \<^verbatim>\<open>glEnable(GL_DEPTH_TEST)\<close> exactly when the cached mode is
  \<^verbatim>\<open>OFF\<close> and the requested one is not; the mode-specific call (every call other than
  the enable toggle) is emitted, once, exactly when the requested mode differs from the
  whole cached mode.
\<close>

theorem C2_enable_toggle:
  "count_list (snd (setBlend m s)) (glEnable GL_BLEND) =
     (if blendMode s = BLEND_NONE \<and> m \<noteq> BLEND_NONE then 1 else 0) \<and>
   count_list (snd (setDepthMode d s)) (glEnable GL_DEPTH_TEST) =
     (if depthMode s = OFF \<and> d \<noteq> OFF then 1 else 0) \<and>
   length (filter (\<lambda>c. c \<noteq> glEnable GL_BLEND) (snd (setBlend m s))) =
     (if m \<noteq> blendMode s then 1 else 0) \<and>
   length (filter (\<lambda>c. c \<noteq> glEnable GL_DEPTH_TEST) (snd (setDepthMode d s))) =
     (if d \<noteq> depthMode s then 1 else 0)"
proof -
  have blend: "count_list (snd (setBlend m s)) (glEnable GL_BLEND) =
     (if blendMode s = BLEND_NONE \<and> m \<noteq> BLEND_NONE then 1 else 0)"
    by (cases m; cases "blendMode s") (simp_all add: setBlend_def)
  have depth: "count_list (snd (setDepthMode d s)) (glEnable GL_DEPTH_TEST) =
     (if depthMode s = OFF \<and> d \<noteq> OFF then 1 else 0)"
    by (cases d; cases "depthMode s") (simp_all add: setDepthMode_def)
  have blend_func: "length (filter (\<lambda>c. c \<noteq> glEnable GL_BLEND) (snd (setBlend m s))) =
     (if m \<noteq> blendMode s then 1 else 0)"
    by (cases m; cases "blendMode s") (simp_all add: setBlend_def)
  have depth_func: "length (filter (\<lambda>c. c \<noteq> glEnable GL_DEPTH_TEST) (snd (setDepthMode d s))) =
     (if d \<noteq> depthMode s then 1 else 0)"
    by (cases d; cases "depthMode s") (simp_all add: setDepthMode_def)
  from blend depth blend_func depth_func show ?thesis
    by (intro conjI)
qed

theorem C2_enable_toggle_witness:
  "count_list (snd (setBlend BLEND_ADDITIVE OpenGLRenderer_init)) (glEnable GL_BLEND) = 1 \<and>
   count_list (snd (setDepthMode LESS OpenGLRenderer_init)) (glEnable GL_DEPTH_TEST) = 1 \<and>
   length (filter (\<lambda>c. c \<noteq> glEnable GL_BLEND)
     (snd (setBlend BLEND_ADDITIVE (OpenGLRenderer_init\<lparr>blendMode := BLEND_ALPHA\<rparr>)))) = 1 \<and>
   count_list (snd (setBlend BLEND_ADDITIVE (OpenGLRenderer_init\<lparr>blendMode := BLEND_ALPHA\<rparr>)))
     (glEnable GL_BLEND) = 0"
  using C2_enable_toggle [of BLEND_ADDITIVE OpenGLRenderer_init LESS]
    C2_enable_toggle [of BLEND_ADDITIVE "OpenGLRenderer_init\<lparr>blendMode := BLEND_ALPHA\<rparr>" LESS]
  by (simp add: OpenGLRenderer_init_def)

text \<open>
  The depth-write slot of the cache is a \<^verbatim>\<open>bool\<close> (line 354), the type of the
  requests themselves. Whatever a function \<open>inv\<close> on the renderer leaves in the cache,
  \<^verbatim>\<open>setDepthWrite\<close> (lines 396-401) of the value left emits nothing, so no function
  makes every following \<^verbatim>\<open>setDepthWrite\<close> emit a device call.
\<close>

lemma setDepthWrite_no_sentinel:
  "\<not> (\<exists>inv :: OpenGLRenderer \<Rightarrow> OpenGLRenderer \<times> GLcall list.
        \<forall>s b. snd (setDepthWrite b (fst (inv s))) \<noteq> [])"
proof
  assume "\<exists>inv :: OpenGLRenderer \<Rightarrow> OpenGLRenderer \<times> GLcall list.
        \<forall>s b. snd (setDepthWrite b (fst (inv s))) \<noteq> []"
  then obtain inv :: "OpenGLRenderer \<Rightarrow> OpenGLRenderer \<times> GLcall list"
    where emits: "\<forall>s b. snd (setDepthWrite b (fst (inv s))) \<noteq> []"
    by blast
  let ?s = "fst (inv OpenGLRenderer_init)"
  have "snd (setDepthWrite (depthWriteEnabled ?s) ?s) = []"
    by (simp add: setDepthWrite_def)
  with emits show False
    by blast
qed

lemma cacheCall_requested: "fst (cacheCall c s) = requested c s"
  by (cases c) (simp_all add: setBlend_def setDepthMode_def setDepthWrite_def attachUBO_def)

lemma cacheCalls_requested: "fst (cacheCalls cs s) = foldl (\<lambda>a c. requested c a) s cs"
  by (induction cs arbitrary: s) (simp_all add: Let_def cacheCall_requested)

text \<open>
  C9: when \<^verbatim>\<open>setBlend(m)\<close>, \<^verbatim>\<open>setDepthMode(d)\<close>, \<^verbatim>\<open>setDepthWrite(b)\<close> or
  \<^verbatim>\<open>attachUBO(u)\<close> returns, the cached field of its slot (\<^verbatim>\<open>blendMode\<close>,
  \<^verbatim>\<open>depthMode\<close>, \<^verbatim>\<open>depthWriteEnabled\<close>, \<^verbatim>\<open>currentUBO\<close>) equals the requested value,
  whether or not a device call was emitted; after any sequence of such calls the cache
  is the prior cache with each request written over its slot in turn, so each slot holds
  the value requested for it last.
\<close>

theorem C9_cache_holds_request:
  "blendMode (fst (setBlend m s)) = m \<and>
   depthMode (fst (setDepthMode d s)) = d \<and>
   depthWriteEnabled (fst (setDepthWrite b s)) = b \<and>
   currentUBO (fst (attachUBO u s)) = u \<and>
   fst (cacheCalls cs s) = foldl (\<lambda>a c. requested c a) s cs"
  by (simp add: setBlend_def setDepthMode_def setDepthWrite_def attachUBO_def
      cacheCalls_requested)

theorem C9_cache_holds_request_witness:
  "blendMode (fst (setBlend BLEND_NONE OpenGLRenderer_init)) = BLEND_NONE \<and>
   snd (setBlend BLEND_NONE OpenGLRenderer_init) = [] \<and>
   currentUBO (fst (attachUBO 3 OpenGLRenderer_init)) = 3 \<and>
   depthMode (fst (cacheCalls [CallSetDepthMode LESS, CallAttachUBO 2, CallSetDepthMode OFF,
      CallSetDepthMode LESS, CallSetDepthMode LESS] OpenGLRenderer_init)) = LESS"
  using C9_cache_holds_request [of BLEND_NONE OpenGLRenderer_init LESS False 3
      "[CallSetDepthMode LESS, CallAttachUBO 2, CallSetDepthMode OFF,
        CallSetDepthMode LESS, CallSetDepthMode LESS]"]
  by (simp add: setBlend_def OpenGLRenderer_init_def)
lemma c_str_no_NUL: "CHR 0x00 \<notin> set nm \<Longrightarrow> c_str nm = nm"
  by (induction nm) (auto simp: c_str_def)

lemma getUniformLocation_keeps:
  assumes "CHR 0x00 \<notin> set nm" and "uniforms p nm = Some v"
  shows "uniforms (fst (snd (getUniformLocation gl' nm' p))) nm = Some v"
proof (cases "uniforms p (c_str nm')")
  case None
  with assms have "nm' \<noteq> nm"
    by (auto simp: c_str_no_NUL)
  with None assms show ?thesis
    by (simp add: getUniformLocation_def Let_def)
next
  case (Some w)
  with assms show ?thesis
    by (simp add: getUniformLocation_def)
qed

lemma lookups_keep:
  "CHR 0x00 \<notin> set nm \<Longrightarrow> uniforms p nm = Some v \<Longrightarrow> uniforms (lookups cs p) nm = Some v"
proof (induction cs arbitrary: p)
  case Nil
  then show ?case by simp
next
  case (Cons c cs)
  obtain gl' nm' where c: "c = (gl', nm')"
    by (cases c)
  from Cons.prems have "uniforms (fst (snd (getUniformLocation gl' nm' p))) nm = Some v"
    by (rule getUniformLocation_keeps)
  with Cons.IH [OF Cons.prems(1)] show ?case
    by (simp add: c)
qed

text \<open>
  C10: a uniform name goes to the device as a NUL-terminated C string (line 278), so it
  holds no NUL character, and for such a name \<^verbatim>\<open>name.c_str()\<close> is the whole name. For
  every uniform name, the first call to \<^verbatim>\<open>getUniformLocation\<close> (no entry for the name
  yet) queries the device once and stores the answer in the per-program map, the
  not-found answer -1 like any other; every later call with that name, after any other
  lookups on the program and whatever the device would answer by then, returns the
  stored value, issues no device query and leaves the program as it is. So a failed
  lookup is not retried and two calls with the same name return equal values.
\<close>

theorem C10_uniform_location_cached:
  assumes "CHR 0x00 \<notin> set nm" and "uniforms p nm = None"
  shows "getUniformLocation gl nm p =
           (gl (program p) nm, p\<lparr>uniforms := (uniforms p)(nm \<mapsto> gl (program p) nm)\<rparr>,
            [glGetUniformLocation (program p) nm]) \<and>
         getUniformLocation gl' nm (lookups cs (fst (snd (getUniformLocation gl nm p)))) =
           (fst (getUniformLocation gl nm p),
            lookups cs (fst (snd (getUniformLocation gl nm p))), [])"
proof
  from assms show first: "getUniformLocation gl nm p =
           (gl (program p) nm, p\<lparr>uniforms := (uniforms p)(nm \<mapsto> gl (program p) nm)\<rparr>,
            [glGetUniformLocation (program p) nm])"
    by (simp add: getUniformLocation_def c_str_no_NUL Let_def)
  let ?p1 = "fst (snd (getUniformLocation gl nm p))"
  have "uniforms ?p1 nm = Some (gl (program p) nm)"
    by (simp add: first)
  with assms(1) have "uniforms (lookups cs ?p1) nm = Some (gl (program p) nm)"
    by (rule lookups_keep)
  with assms(1) have "getUniformLocation gl' nm (lookups cs ?p1) =
      (gl (program p) nm, lookups cs ?p1, [])"
    by (simp add: getUniformLocation_def c_str_no_NUL)
  then show "getUniformLocation gl' nm (lookups cs ?p1) =
      (fst (getUniformLocation gl nm p), lookups cs ?p1, [])"
    by (simp add: first)
qed

theorem C10_uniform_location_cached_witness:
  "fst (getUniformLocation (\<lambda>prog nm. - 1) ''fogStart'' \<lparr>program = 1, uniforms = Map.empty\<rparr>) = - 1 \<and>
   getUniformLocation (\<lambda>prog nm. 4) ''fogStart''
     (lookups [(\<lambda>prog nm. 2, ''colour'')]
        (fst (snd (getUniformLocation (\<lambda>prog nm. - 1) ''fogStart''
           \<lparr>program = 1, uniforms = Map.empty\<rparr>)))) =
     (- 1, \<lparr>program = 1, uniforms = [''fogStart'' \<mapsto> - 1, ''colour'' \<mapsto> 2]\<rparr>, [])"
proof -
  have nul: "CHR 0x00 \<notin> set ''fogStart''"
    by simp
  have miss: "uniforms \<lparr>program = 1, uniforms = Map.empty\<rparr> ''fogStart'' = None"
    by simp
  have run: "lookups [(\<lambda>prog nm. 2, ''colour'')]
        (fst (snd (getUniformLocation (\<lambda>prog nm. - 1) ''fogStart''
           \<lparr>program = 1, uniforms = Map.empty\<rparr>))) =
      \<lparr>program = 1, uniforms = [''fogStart'' \<mapsto> - 1, ''colour'' \<mapsto> 2]\<rparr>"
    by (simp add: getUniformLocation_def c_str_def Let_def)
  show ?thesis
    using C10_uniform_location_cached [OF nul miss, of "\<lambda>prog nm. - 1" "\<lambda>prog nm. 4"
        "[(\<lambda>prog nm. 2, ''colour'')]"] run
    by (simp add: getUniformLocation_def c_str_def Let_def)
qed

text \<open>
  A \<^verbatim>\<open>std::string\<close> that holds a NUL character is outside this: the map is searched
  with the key \<^verbatim>\<open>name.c_str()\<close> (line 275) and filled under \<^verbatim>\<open>name\<close> (line 279),
  so for the three characters a, NUL, b the entry stored by the first call is not found
  by the second, which asks the device again.
\<close>

lemma getUniformLocation_embedded_NUL:
  "snd (snd (getUniformLocation (\<lambda>prog nm. - 1) [CHR ''a'', CHR 0x00, CHR ''b'']
     (fst (snd (getUniformLocation (\<lambda>prog nm. - 1) [CHR ''a'', CHR 0x00, CHR ''b'']
        \<lparr>program = 1, uniforms = Map.empty\<rparr>))))) =
     [glGetUniformLocation 1 ''a'']"
  by (simp add: getUniformLocation_def c_str_def Let_def)
lemma uploadUBOEntry_ok:
  "sz \<le> ucast (entrySize b) \<Longrightarrow>
   uploadUBOEntry b sz =
     (Inr [DevUploadBufferRegion (name b) (currentEntry b) sz],
      b\<lparr>currentEntry := (currentEntry b + 1) mod entryCount b\<rparr>)"
  by (simp add: uploadUBOEntry_def not_less [symmetric])

lemma cursor_step:
  fixes c n :: "32 word"
  assumes "c < n"
  shows "unat ((c + 1) mod n) = (unat c + 1) mod unat n"
proof -
  from assms have "unat c < unat n"
    by (simp add: word_less_nat_alt)
  moreover have "unat n < 2 ^ LENGTH(32)"
    by (rule unsigned_less)
  ultimately have "unat c + unat (1 :: 32 word) < 2 ^ LENGTH(32)"
    by simp
  then have "unat (c + 1) = unat c + 1"
    by (simp add: unat_add_lem [THEN iffD1])
  then show ?thesis
    by (simp add: unat_mod)
qed

lemma cursor_in_range:
  fixes c n :: "32 word"
  shows "n \<noteq> 0 \<Longrightarrow> (c + 1) mod n < n"
  by (simp add: word_mod_less_divisor word_greater_zero_iff)

lemma uploadEntries_cursor:
  assumes "currentEntry b < entryCount b" and "\<forall>sz \<in> set szs. sz \<le> ucast (entrySize b)"
  shows "\<exists>c. uploadEntries szs b =
           (Inr c, b\<lparr>currentEntry :=
              of_nat ((unat (currentEntry b) + length szs) mod unat (entryCount b))\<rparr>)"
  using assms
proof (induction szs arbitrary: b)
  case Nil
  then have "unat (currentEntry b) < unat (entryCount b)"
    by (simp add: word_less_nat_alt)
  then show ?case
    by simp
next
  case (Cons sz szs)
  let ?b1 = "b\<lparr>currentEntry := (currentEntry b + 1) mod entryCount b\<rparr>"
  from Cons.prems have step: "uploadUBOEntry b sz =
      (Inr [DevUploadBufferRegion (name b) (currentEntry b) sz], ?b1)"
    by (simp add: uploadUBOEntry_ok)
  from Cons.prems have nz: "entryCount b \<noteq> 0"
    by auto
  then have "currentEntry ?b1 < entryCount ?b1"
    by (simp add: cursor_in_range)
  moreover from Cons.prems have "\<forall>sz \<in> set szs. sz \<le> ucast (entrySize ?b1)"
    by simp
  ultimately obtain c where run: "uploadEntries szs ?b1 =
      (Inr c, ?b1\<lparr>currentEntry :=
         of_nat ((unat (currentEntry ?b1) + length szs) mod unat (entryCount ?b1))\<rparr>)"
    using Cons.IH by blast
  from Cons.prems have "unat (currentEntry ?b1) = (unat (currentEntry b) + 1) mod unat (entryCount b)"
    by (simp add: cursor_step)
  then have "(unat (currentEntry ?b1) + length szs) mod unat (entryCount ?b1) =
      (unat (currentEntry b) + length (sz # szs)) mod unat (entryCount b)"
    by (simp add: mod_add_left_eq add.assoc)
  with run step show ?case
    by simp
qed

text \<open>
  C5: a successful upload advances the cursor to \<open>(currentEntry + 1) mod entryCount\<close>;
  from every cursor position of a buffer (the data model keeps \<open>currentEntry\<close> below
  \<open>entryCount\<close>), \<open>entryCount\<close> uploads that fit the slot size all succeed and leave
  the buffer, cursor included, as it was at the start; and after any number of
  successful uploads the cursor is below \<open>entryCount\<close>.
\<close>

theorem C5_cursor_periodic:
  assumes "currentEntry b < entryCount b"
    and "\<forall>sz \<in> set szs. sz \<le> ucast (entrySize b)"
  shows "(sz \<le> ucast (entrySize b) \<longrightarrow>
            currentEntry (snd (uploadUBOEntry b sz)) = (currentEntry b + 1) mod entryCount b) \<and>
         (length szs = unat (entryCount b) \<longrightarrow> (\<exists>c. uploadEntries szs b = (Inr c, b))) \<and>
         (\<exists>c. fst (uploadEntries szs b) = Inr c) \<and>
         currentEntry (snd (uploadEntries szs b)) < entryCount b"
proof -
  from assms obtain c where run: "uploadEntries szs b =
      (Inr c, b\<lparr>currentEntry :=
         of_nat ((unat (currentEntry b) + length szs) mod unat (entryCount b))\<rparr>)"
    using uploadEntries_cursor by blast
  from assms(1) have lt: "unat (currentEntry b) < unat (entryCount b)"
    by (simp add: word_less_nat_alt)
  have step: "sz \<le> ucast (entrySize b) \<longrightarrow>
      currentEntry (snd (uploadUBOEntry b sz)) = (currentEntry b + 1) mod entryCount b"
    by (simp add: uploadUBOEntry_ok)
  have period: "length szs = unat (entryCount b) \<longrightarrow> (\<exists>c. uploadEntries szs b = (Inr c, b))"
  proof
    assume "length szs = unat (entryCount b)"
    with lt have "(unat (currentEntry b) + length szs) mod unat (entryCount b) = unat (currentEntry b)"
      by simp
    with run show "\<exists>c. uploadEntries szs b = (Inr c, b)"
      by simp
  qed
  have succeeds: "\<exists>c. fst (uploadEntries szs b) = Inr c"
    using run by simp
  let ?k = "(unat (currentEntry b) + length szs) mod unat (entryCount b)"
  from lt have k: "?k < unat (entryCount b)"
    by simp
  moreover have "unat (entryCount b) < 2 ^ LENGTH(32)"
    by (rule unsigned_less)
  ultimately have "?k < 2 ^ LENGTH(32)"
    by (rule less_trans)
  then have "unat (of_nat ?k :: 32 word) = ?k"
    by (simp add: unat_of_nat)
  with k have "(of_nat ?k :: 32 word) < entryCount b"
    by (simp add: word_less_nat_alt)
  with run have range: "currentEntry (snd (uploadEntries szs b)) < entryCount b"
    by simp
  from step period succeeds range show ?thesis
    by (intro conjI)
qed

theorem C5_cursor_periodic_witness:
  "uploadEntries [92, 16, 92]
     \<lparr>name = 7, currentEntry = 2, entryCount = 3, entrySize = 128, bufferSize = 384\<rparr> =
   (Inr [DevUploadBufferRegion 7 2 92, DevUploadBufferRegion 7 0 16, DevUploadBufferRegion 7 1 92],
    \<lparr>name = 7, currentEntry = 2, entryCount = 3, entrySize = 128, bufferSize = 384\<rparr>) \<and>
   currentEntry (snd (uploadUBOEntry
     \<lparr>name = 7, currentEntry = 2, entryCount = 3, entrySize = 128, bufferSize = 384\<rparr> 92)) = 0"
proof -
  let ?b = "\<lparr>name = 7, currentEntry = 2, entryCount = 3, entrySize = 128, bufferSize = 384 :: GLsizei\<rparr>"
  have inv: "currentEntry ?b < entryCount ?b"
    by simp
  have fit: "\<forall>sz \<in> set [92, 16, 92 :: size_t]. sz \<le> ucast (entrySize ?b)"
    by simp
  have len: "length [92, 16, 92 :: size_t] = unat (entryCount ?b)"
    by simp
  have one: "(92 :: size_t) \<le> ucast (entrySize ?b)"
    by simp
  from C5_cursor_periodic [OF inv fit, of 92] len one show ?thesis
    by (simp add: uploadUBOEntry_def)
qed

text \<open>
  C6: an upload whose size exceeds \<open>entrySize\<close> fails and leaves the buffer, the
  cursor \<open>currentEntry\<close> included, unchanged; a run of uploads that ends with such an
  upload fails.
\<close>

theorem C6_oversized_upload_fails:
  assumes "ucast (entrySize b) < sz"
  shows "uploadUBOEntry b sz = (Inl UploadTooLarge, b) \<and>
         currentEntry (snd (uploadUBOEntry b sz)) = currentEntry b \<and>
         isl (fst (uploadEntries (szs @ [sz]) b))"
proof -
  from assms have one: "entrySize b' = entrySize b \<Longrightarrow> uploadUBOEntry b' sz = (Inl UploadTooLarge, b')" for b'
    by (simp add: uploadUBOEntry_def)
  have keeps: "entrySize (snd (uploadUBOEntry b' x)) = entrySize b'" for b' x
    by (simp add: uploadUBOEntry_def)
  have "entrySize b' = entrySize b \<Longrightarrow> isl (fst (uploadEntries (szs @ [sz]) b'))" for b'
  proof (induction szs arbitrary: b')
    case Nil
    then show ?case
      by (simp add: one)
  next
    case (Cons x xs)
    have "entrySize (snd (uploadUBOEntry b' x)) = entrySize b"
      using Cons.prems keeps by simp
    then have "isl (fst (uploadEntries (xs @ [sz]) (snd (uploadUBOEntry b' x))))"
      by (rule Cons.IH)
    then show ?case
      by (auto split: prod.splits sum.splits)
  qed
  with one [of b] show ?thesis
    by simp
qed

theorem C6_oversized_upload_fails_witness:
  "uploadUBOEntry \<lparr>name = 7, currentEntry = 2, entryCount = 3, entrySize = 64, bufferSize = 192\<rparr> 92 =
     (Inl UploadTooLarge,
      \<lparr>name = 7, currentEntry = 2, entryCount = 3, entrySize = 64, bufferSize = 192\<rparr>)"
proof -
  let ?b = "\<lparr>name = 7, currentEntry = 2, entryCount = 3, entrySize = 64, bufferSize = 192 :: GLsizei\<rparr>"
  have big: "ucast (entrySize ?b) < (92 :: size_t)"
    by simp
  from C6_oversized_upload_fails [OF big] show ?thesis
    by simp
qed
subsection \<open>The profiling stack stays in bounds\<close>

lemma cache_keeps_debug:
  "currentDebugDepth (fst (setBlend m s)) = currentDebugDepth s"
  "profileInfo (fst (setBlend m s)) = profileInfo s"
  "currentDebugDepth (fst (setDepthMode d s)) = currentDebugDepth s"
  "profileInfo (fst (setDepthMode d s)) = profileInfo s"
  "currentDebugDepth (fst (setDepthWrite w s)) = currentDebugDepth s"
  "profileInfo (fst (setDepthWrite w s)) = profileInfo s"
  "currentDebugDepth (fst (useTexture u t s)) = currentDebugDepth s"
  "profileInfo (fst (useTexture u t s)) = profileInfo s"
  "currentDebugDepth (fst (useDrawBuffer b s)) = currentDebugDepth s"
  "profileInfo (fst (useDrawBuffer b s)) = profileInfo s"
  by (simp_all add: setBlend_def setDepthMode_def setDepthWrite_def useTexture_def
      useDrawBuffer_def Let_def)

lemma cache_keeps_debugStackOk:
  "debugStackOk (fst (setBlend m s)) = debugStackOk s"
  "debugStackOk (fst (setDepthMode d s)) = debugStackOk s"
  "debugStackOk (fst (setDepthWrite w s)) = debugStackOk s"
  "debugStackOk (fst (useTexture u t s)) = debugStackOk s"
  "debugStackOk (fst (useDrawBuffer b s)) = debugStackOk s"
  by (simp_all add: debugStackOk_def cache_keeps_debug)

lemma profileInfo_at_in_bounds:
  assumes "debugStackOk s" and "0 \<le> i" and "i < MAX_DEBUG_DEPTH"
  shows "profileInfo_at i f s =
           Inr (s\<lparr>profileInfo := (profileInfo s)[nat i := f (profileInfo s ! nat i)]\<rparr>)"
  using assms by (simp add: profileInfo_at_def debugStackOk_def)

lemma putUBO_debug:
  "currentDebugDepth (putUBO b x s) = currentDebugDepth s"
  "profileInfo (putUBO b x s) = profileInfo s"
  "debugStackOk (putUBO b x s) = debugStackOk s"
  by (cases b; simp add: debugStackOk_def)+

lemma uploadUBO_stack:
  assumes "debugStackOk s"
  shows "uploadUBO b sz s \<noteq> Inl ArrayOutOfBounds \<and>
         (\<forall>s' c. uploadUBO b sz s = Inr (s', c) \<longrightarrow>
            debugStackOk s' \<and> currentDebugDepth s' = currentDebugDepth s)"
proof (cases "ucast (entrySize (getUBO b s)) < sz")
  case True
  then show ?thesis
    by (simp add: uploadUBO_def uploadUBOEntry_def)
next
  case False
  let ?s1 = "putUBO b ((getUBO b s)\<lparr>currentEntry :=
      (currentEntry (getUBO b s) + 1) mod entryCount (getUBO b s)\<rparr>) s"
  from assms have ok1: "debugStackOk ?s1"
    by (simp add: putUBO_debug)
  have depth1: "currentDebugDepth ?s1 = currentDebugDepth s"
    by (simp add: putUBO_debug)
  show ?thesis
  proof (cases "currentDebugDepth s > 0")
    case True
    with ok1 depth1 have "profileInfo_at (currentDebugDepth ?s1 - 1)
        (\<lambda>info. info\<lparr>uploads := uploads info + 1\<rparr>) ?s1 =
      Inr (?s1\<lparr>profileInfo := (profileInfo ?s1)[nat (currentDebugDepth ?s1 - 1) :=
         (\<lambda>info. info\<lparr>uploads := uploads info + 1\<rparr>)
           (profileInfo ?s1 ! nat (currentDebugDepth ?s1 - 1))]\<rparr>)"
      by (intro profileInfo_at_in_bounds) (simp_all add: debugStackOk_def)
    with \<open>\<not> ucast (entrySize (getUBO b s)) < sz\<close> True ok1 depth1 show ?thesis
      by (auto simp: uploadUBO_def uploadUBOEntry_def Let_def debugStackOk_def)
  next
    case False
    with \<open>\<not> ucast (entrySize (getUBO b s)) < sz\<close> ok1 depth1 show ?thesis
      by (auto simp: uploadUBO_def uploadUBOEntry_def Let_def)
  qed
qed

lemma pushDebugGroup_stack:
  assumes "debugStackOk s"
  shows "pushDebugGroup title s =
           (if currentDebugDepth s < MAX_DEBUG_DEPTH
            then Inr (s\<lparr>profileInfo := (profileInfo s)[nat (currentDebugDepth s) := ProfileInfo_init],
                        currentDebugDepth := currentDebugDepth s + 1\<rparr>, [DevBeginTimer])
            else Inl DebugDepthExceeded)"
  using assms by (simp add: pushDebugGroup_def profileInfo_at_def debugStackOk_def)

lemma popDebugGroup_stack:
  assumes "debugStackOk s"
  shows "popDebugGroup elapsed s =
           (if currentDebugDepth s > 0
            then Inr ((profileInfo s ! nat (currentDebugDepth s - 1))\<lparr>duration := elapsed\<rparr>,
                      s\<lparr>profileInfo := (profileInfo s)[nat (currentDebugDepth s - 1) :=
                           (profileInfo s ! nat (currentDebugDepth s - 1))\<lparr>duration := elapsed\<rparr>],
                        currentDebugDepth := currentDebugDepth s - 1\<rparr>, [DevEndTimer])
            else Inl DebugDepthUnderflow)"
  using assms by (auto simp: popDebugGroup_def profileInfo_at_def debugStackOk_def)

lemma draw_stack:
  assumes "debugStackOk s"
  shows "draw objSize d p s \<noteq> Inl ArrayOutOfBounds \<and>
         (\<forall>s' c. draw objSize d p s = Inr (s', c) \<longrightarrow>
            debugStackOk s' \<and> currentDebugDepth s' = currentDebugDepth s)"
proof -
  let ?s1 = "fst (useDrawBuffer d s)"
  let ?s2 = "fst (setBlend (dp_blendMode p) ?s1)"
  let ?s3 = "fst (setDepthMode (dp_depthMode p) ?s2)"
  let ?s4 = "fst (setDepthWrite (dp_depthWrite p) ?s3)"
  let ?s5 = "fst (useTexture 0 (fst (dp_textures p)) ?s4)"
  let ?s6 = "fst (useTexture 1 (snd (dp_textures p)) ?s5)"
  from assms have ok6: "debugStackOk ?s6"
    by (simp add: cache_keeps_debugStackOk)
  have depth6: "currentDebugDepth ?s6 = currentDebugDepth s"
    by (simp add: cache_keeps_debug)
  note up = uploadUBO_stack [OF ok6, of ObjectUBO objSize]
  show ?thesis
  proof (cases "uploadUBO ObjectUBO objSize ?s6")
    case (Inl e)
    with up show ?thesis
      by (simp add: draw_def Let_def)
  next
    case (Inr r)
    obtain s7 c7 where r: "r = (s7, c7)"
      by (cases r)
    from up Inr r have ok7: "debugStackOk s7" and depth7: "currentDebugDepth s7 = currentDebugDepth s"
      by (simp_all add: depth6)
    let ?s8 = "s7\<lparr>drawCounter := drawCounter s7 + 1\<rparr>"
    from ok7 have ok8: "debugStackOk ?s8"
      by (simp add: debugStackOk_def)
    show ?thesis
    proof (cases "currentDebugDepth s7 > 0")
      case True
      with ok8 have "profileInfo_at (currentDebugDepth ?s8 - 1)
          (\<lambda>info. info\<lparr>draws := draws info + 1\<rparr>) ?s8 =
        Inr (?s8\<lparr>profileInfo := (profileInfo ?s8)[nat (currentDebugDepth ?s8 - 1) :=
           (\<lambda>info. info\<lparr>draws := draws info + 1\<rparr>)
             (profileInfo ?s8 ! nat (currentDebugDepth ?s8 - 1))]\<rparr>)"
        by (intro profileInfo_at_in_bounds) (simp_all add: debugStackOk_def)
      with Inr r True ok8 depth7 show ?thesis
        by (auto simp: draw_def Let_def debugStackOk_def)
    next
      case False
      with Inr r ok8 depth7 show ?thesis
        by (auto simp: draw_def Let_def)
    qed
  qed
qed

lemma profOp_stack:
  assumes "debugStackOk s"
  shows "profOp x s \<noteq> Inl ArrayOutOfBounds \<and> (\<forall>s'. profOp x s = Inr s' \<longrightarrow> debugStackOk s')"
proof (cases x)
  case (OpPush title)
  with assms show ?thesis
    by (auto simp: pushDebugGroup_stack debugStackOk_def)
next
  case (OpPop elapsed)
  with assms show ?thesis
    by (auto simp: popDebugGroup_stack debugStackOk_def)
next
  case (OpUpload b sz)
  with uploadUBO_stack [OF assms, of b sz] show ?thesis
    by (cases "uploadUBO b sz s") auto
next
  case (OpDraw objSize d p)
  with draw_stack [OF assms, of objSize d p] show ?thesis
    by (cases "draw objSize d p s") auto
qed

lemma profOps_stack:
  "debugStackOk s \<Longrightarrow>
   profOps xs s \<noteq> Inl ArrayOutOfBounds \<and> (\<forall>s'. profOps xs s = Inr s' \<longrightarrow> debugStackOk s')"
proof (induction xs arbitrary: s)
  case Nil
  then show ?case by simp
next
  case (Cons x xs)
  from profOp_stack [OF Cons.prems, of x] Cons.IH show ?case
    by (cases "profOp x s") auto
qed

lemma pushes_stack:
  "debugStackOk s \<Longrightarrow>
   (if currentDebugDepth s + int (length ts) \<le> MAX_DEBUG_DEPTH
    then \<exists>s'. profOps (map OpPush ts) s = Inr s' \<and>
           currentDebugDepth s' = currentDebugDepth s + int (length ts)
    else profOps (map OpPush ts) s = Inl DebugDepthExceeded)"
proof (induction ts arbitrary: s)
  case Nil
  then show ?case
    by (simp add: debugStackOk_def)
next
  case (Cons t ts)
  show ?case
  proof (cases "currentDebugDepth s < MAX_DEBUG_DEPTH")
    case True
    let ?s1 = "s\<lparr>profileInfo := (profileInfo s)[nat (currentDebugDepth s) := ProfileInfo_init],
                   currentDebugDepth := currentDebugDepth s + 1\<rparr>"
    from True Cons.prems have step: "profOp (OpPush t) s = Inr ?s1"
      by (simp add: pushDebugGroup_stack)
    from True Cons.prems have "debugStackOk ?s1"
      by (simp add: debugStackOk_def)
    from Cons.IH [OF this] step show ?thesis
      by (auto simp: add.assoc split: if_splits)
  next
    case False
    with Cons.prems show ?thesis
      by (simp add: pushDebugGroup_stack)
  qed
qed

text \<open>
  C7: the depth of the debug-scope stack is bounded by 5. From a well-formed stack
  (depth within \<open>[0, 5]\<close>, five elements), \<^verbatim>\<open>pushDebugGroup\<close> is rejected exactly when
  the depth is not below 5 and \<^verbatim>\<open>popDebugGroup\<close> exactly when the depth is not above 0;
  of six consecutive pushes from depth 0 the first five succeed and reach depth 5 and
  the sixth is rejected; and whatever sequence of pushes, pops, uploads and draws is
  run, no access to \<^verbatim>\<open>profileInfo\<close> leaves the array and the stack is well-formed after
  every operation that returns.
\<close>

theorem C7_debug_depth_bounded:
  assumes "debugStackOk s"
  shows "(pushDebugGroup title s = Inl DebugDepthExceeded) = (\<not> currentDebugDepth s < MAX_DEBUG_DEPTH) \<and>
         isl (pushDebugGroup title s) = (\<not> currentDebugDepth s < 5) \<and>
         (popDebugGroup elapsed s = Inl DebugDepthUnderflow) = (\<not> 0 < currentDebugDepth s) \<and>
         isl (popDebugGroup elapsed s) = (\<not> 0 < currentDebugDepth s) \<and>
         (currentDebugDepth s = 0 \<and> length ts = 6 \<longrightarrow>
            (\<exists>s'. profOps (map OpPush (take 5 ts)) s = Inr s' \<and> currentDebugDepth s' = 5) \<and>
            profOps (map OpPush ts) s = Inl DebugDepthExceeded) \<and>
         profOps xs s \<noteq> Inl ArrayOutOfBounds \<and>
         (\<forall>s'. profOps xs s = Inr s' \<longrightarrow>
            0 \<le> currentDebugDepth s' \<and> currentDebugDepth s' \<le> 5 \<and> length (profileInfo s') = 5)"
proof -
  have push: "(pushDebugGroup title s = Inl DebugDepthExceeded) = (\<not> currentDebugDepth s < MAX_DEBUG_DEPTH)"
    using assms by (simp add: pushDebugGroup_stack)
  have push': "isl (pushDebugGroup title s) = (\<not> currentDebugDepth s < 5)"
    using assms by (simp add: pushDebugGroup_stack MAX_DEBUG_DEPTH_def)
  have pop: "(popDebugGroup elapsed s = Inl DebugDepthUnderflow) = (\<not> 0 < currentDebugDepth s)"
    using assms by (simp add: popDebugGroup_stack)
  have pop': "isl (popDebugGroup elapsed s) = (\<not> 0 < currentDebugDepth s)"
    using assms by (simp add: popDebugGroup_stack)
  have six: "currentDebugDepth s = 0 \<and> length ts = 6 \<longrightarrow>
            (\<exists>s'. profOps (map OpPush (take 5 ts)) s = Inr s' \<and> currentDebugDepth s' = 5) \<and>
            profOps (map OpPush ts) s = Inl DebugDepthExceeded"
  proof
    assume h: "currentDebugDepth s = 0 \<and> length ts = 6"
    from pushes_stack [OF assms, of "take 5 ts"] h
    have five: "\<exists>s'. profOps (map OpPush (take 5 ts)) s = Inr s' \<and> currentDebugDepth s' = 5"
      by (simp add: MAX_DEBUG_DEPTH_def)
    from pushes_stack [OF assms, of ts] h
    have "profOps (map OpPush ts) s = Inl DebugDepthExceeded"
      by (simp add: MAX_DEBUG_DEPTH_def)
    with five show "(\<exists>s'. profOps (map OpPush (take 5 ts)) s = Inr s' \<and> currentDebugDepth s' = 5) \<and>
            profOps (map OpPush ts) s = Inl DebugDepthExceeded"
      by simp
  qed
  have bounds: "profOps xs s \<noteq> Inl ArrayOutOfBounds"
    using profOps_stack [OF assms] by simp
  have inv: "\<forall>s'. profOps xs s = Inr s' \<longrightarrow>
            0 \<le> currentDebugDepth s' \<and> currentDebugDepth s' \<le> 5 \<and> length (profileInfo s') = 5"
    using profOps_stack [OF assms, of xs] by (auto simp: debugStackOk_def MAX_DEBUG_DEPTH_def)
  from push push' pop pop' six bounds inv show ?thesis
    by (intro conjI)
qed

theorem C7_debug_depth_bounded_witness:
  "debugStackOk OpenGLRenderer_init \<and>
   popDebugGroup 0 OpenGLRenderer_init = Inl DebugDepthUnderflow \<and>
   profOps (map OpPush [''a'', ''b'', ''c'', ''d'', ''e'', ''f'']) OpenGLRenderer_init =
     Inl DebugDepthExceeded \<and>
   (\<exists>s'. profOps (map OpPush (take 5 [''a'', ''b'', ''c'', ''d'', ''e'', ''f''])) OpenGLRenderer_init = Inr s' \<and>
      currentDebugDepth s' = 5) \<and>
   profOps [OpPush ''frame'', OpUpload SceneUBO 200, OpPop 9, OpPop 9] OpenGLRenderer_init \<noteq>
     Inl ArrayOutOfBounds"
proof -
  have ok: "debugStackOk OpenGLRenderer_init"
    by (simp add: debugStackOk_def OpenGLRenderer_init_def MAX_DEBUG_DEPTH_def)
  have depth: "currentDebugDepth OpenGLRenderer_init = 0"
    by (simp add: OpenGLRenderer_init_def)
  have len: "length [''a'', ''b'', ''c'', ''d'', ''e'', ''f''] = 6"
    by simp
  from C7_debug_depth_bounded [OF ok, of "''x''" 0 "[''a'', ''b'', ''c'', ''d'', ''e'', ''f'']"
      "[OpPush ''frame'', OpUpload SceneUBO 200, OpPop 9, OpPop 9]"] depth len ok
  show ?thesis
    by simp
qed
subsection \<open>Two consecutive draws\<close>

lemma counts_append:
  "bufferBinds (a @ b) = bufferBinds a + bufferBinds b"
  "blendEnables (a @ b) = blendEnables a + blendEnables b"
  "blendFuncs (a @ b) = blendFuncs a + blendFuncs b"
  by (simp_all add: bufferBinds_def blendEnables_def blendFuncs_def)

lemma counts_useDrawBuffer:
  "bufferBinds (snd (useDrawBuffer d s)) = (if currentDbuff s \<noteq> d then 1 else 0)"
  "blendEnables (snd (useDrawBuffer d s)) = 0"
  "blendFuncs (snd (useDrawBuffer d s)) = 0"
  by (simp_all add: bufferBinds_def blendEnables_def blendFuncs_def useDrawBuffer_def)

lemma counts_setBlend:
  "bufferBinds (snd (setBlend m s)) = 0"
  "blendEnables (snd (setBlend m s)) = (if m \<noteq> BLEND_NONE \<and> blendMode s = BLEND_NONE then 1 else 0)"
  "blendFuncs (snd (setBlend m s)) = (if m \<noteq> blendMode s \<and> m \<noteq> BLEND_NONE then 1 else 0)"
  by (cases m; simp add: bufferBinds_def blendEnables_def blendFuncs_def setBlend_def)+

lemma counts_other:
  "bufferBinds (snd (setDepthMode dm s)) = 0"
  "blendEnables (snd (setDepthMode dm s)) = 0"
  "blendFuncs (snd (setDepthMode dm s)) = 0"
  "bufferBinds (snd (setDepthWrite w s)) = 0"
  "blendEnables (snd (setDepthWrite w s)) = 0"
  "blendFuncs (snd (setDepthWrite w s)) = 0"
  "bufferBinds (snd (useTexture u t s)) = 0"
  "blendEnables (snd (useTexture u t s)) = 0"
  "blendFuncs (snd (useTexture u t s)) = 0"
  by (cases dm; simp add: bufferBinds_def blendEnables_def blendFuncs_def
      setDepthMode_def setDepthWrite_def useTexture_def)+

lemma counts_single:
  "bufferBinds [DevDrawIndexed i n] = 0"
  "blendEnables [DevDrawIndexed i n] = 0"
  "blendFuncs [DevDrawIndexed i n] = 0"
  "bufferBinds [DevUploadBufferRegion b k sz] = 0"
  "blendEnables [DevUploadBufferRegion b k sz] = 0"
  "blendFuncs [DevUploadBufferRegion b k sz] = 0"
  by (simp_all add: bufferBinds_def blendEnables_def blendFuncs_def)

lemma cache_keeps_fields:
  "currentDbuff (fst (useDrawBuffer d s)) = d"
  "blendMode (fst (useDrawBuffer d s)) = blendMode s"
  "UBOObject (fst (useDrawBuffer d s)) = UBOObject s"
  "currentDbuff (fst (setBlend m s)) = currentDbuff s"
  "blendMode (fst (setBlend m s)) = m"
  "UBOObject (fst (setBlend m s)) = UBOObject s"
  "currentDbuff (fst (setDepthMode dm s)) = currentDbuff s"
  "blendMode (fst (setDepthMode dm s)) = blendMode s"
  "UBOObject (fst (setDepthMode dm s)) = UBOObject s"
  "currentDbuff (fst (setDepthWrite w s)) = currentDbuff s"
  "blendMode (fst (setDepthWrite w s)) = blendMode s"
  "UBOObject (fst (setDepthWrite w s)) = UBOObject s"
  "currentDbuff (fst (useTexture u t s)) = currentDbuff s"
  "blendMode (fst (useTexture u t s)) = blendMode s"
  "UBOObject (fst (useTexture u t s)) = UBOObject s"
  by (simp_all add: useDrawBuffer_def setBlend_def setDepthMode_def setDepthWrite_def
      useTexture_def Let_def)

lemma bump_ok:
  assumes "debugStackOk s"
  shows "\<exists>s'. (if currentDebugDepth s > 0
               then profileInfo_at (currentDebugDepth s - 1) f s else Inr s) = Inr s' \<and>
           currentDbuff s' = currentDbuff s \<and> blendMode s' = blendMode s \<and>
           UBOObject s' = UBOObject s \<and> debugStackOk s'"
  using assms by (simp add: profileInfo_at_def debugStackOk_def)

lemma uploadUBO_object_ok:
  assumes "sz \<le> ucast (entrySize (UBOObject s))" and "debugStackOk s"
  shows "\<exists>s' c. uploadUBO ObjectUBO sz s = Inr (s', c) \<and>
           bufferBinds c = 0 \<and> blendEnables c = 0 \<and> blendFuncs c = 0 \<and>
           currentDbuff s' = currentDbuff s \<and> blendMode s' = blendMode s \<and>
           entrySize (UBOObject s') = entrySize (UBOObject s) \<and> debugStackOk s'"
proof -
  let ?b = "(UBOObject s)\<lparr>currentEntry := (currentEntry (UBOObject s) + 1) mod entryCount (UBOObject s)\<rparr>"
  let ?s1 = "s\<lparr>UBOObject := ?b\<rparr>"
  from assms(2) have "debugStackOk ?s1"
    by (simp add: debugStackOk_def)
  from bump_ok [OF this, of "\<lambda>info. info\<lparr>uploads := uploads info + 1\<rparr>"]
  obtain s' where "(if currentDebugDepth ?s1 > 0
               then profileInfo_at (currentDebugDepth ?s1 - 1)
                      (\<lambda>info. info\<lparr>uploads := uploads info + 1\<rparr>) ?s1 else Inr ?s1) = Inr s'"
    and "currentDbuff s' = currentDbuff ?s1" and "blendMode s' = blendMode ?s1"
    and "UBOObject s' = UBOObject ?s1" and "debugStackOk s'"
    by blast
  with assms(1) show ?thesis
    by (auto simp: uploadUBO_def uploadUBOEntry_ok Let_def counts_single split: if_splits)
qed

lemma draw_counts:
  assumes "objSize \<le> ucast (entrySize (UBOObject s))" and "debugStackOk s"
  shows "\<exists>s' c. draw objSize d p s = Inr (s', c) \<and>
           bufferBinds c = (if currentDbuff s \<noteq> d then 1 else 0) \<and>
           blendEnables c = (if dp_blendMode p \<noteq> BLEND_NONE \<and> blendMode s = BLEND_NONE then 1 else 0) \<and>
           blendFuncs c = (if dp_blendMode p \<noteq> blendMode s \<and> dp_blendMode p \<noteq> BLEND_NONE then 1 else 0) \<and>
           currentDbuff s' = d \<and> blendMode s' = dp_blendMode p \<and>
           entrySize (UBOObject s') = entrySize (UBOObject s) \<and> debugStackOk s'"
proof -
  let ?r1 = "useDrawBuffer d s"
  let ?r2 = "setBlend (dp_blendMode p) (fst ?r1)"
  let ?r3 = "setDepthMode (dp_depthMode p) (fst ?r2)"
  let ?r4 = "setDepthWrite (dp_depthWrite p) (fst ?r3)"
  let ?r5 = "useTexture 0 (fst (dp_textures p)) (fst ?r4)"
  let ?r6 = "useTexture 1 (snd (dp_textures p)) (fst ?r5)"
  let ?cache = "snd ?r1 @ snd ?r2 @ snd ?r3 @ snd ?r4 @ snd ?r5 @ snd ?r6"
  have fields6: "currentDbuff (fst ?r6) = d" "blendMode (fst ?r6) = dp_blendMode p"
      "UBOObject (fst ?r6) = UBOObject s"
    by (simp_all add: cache_keeps_fields)
  from assms(2) have ok6: "debugStackOk (fst ?r6)"
    by (simp add: cache_keeps_debugStackOk)
  have cache:
    "bufferBinds ?cache = (if currentDbuff s \<noteq> d then 1 else 0)"
    "blendEnables ?cache = (if dp_blendMode p \<noteq> BLEND_NONE \<and> blendMode s = BLEND_NONE then 1 else 0)"
    "blendFuncs ?cache = (if dp_blendMode p \<noteq> blendMode s \<and> dp_blendMode p \<noteq> BLEND_NONE then 1 else 0)"
    by (simp_all add: counts_append counts_useDrawBuffer counts_setBlend counts_other
        cache_keeps_fields)
  from assms(1) fields6 have "objSize \<le> ucast (entrySize (UBOObject (fst ?r6)))"
    by simp
  from uploadUBO_object_ok [OF this ok6] fields6
  obtain s7 c7 where up: "uploadUBO ObjectUBO objSize (fst ?r6) = Inr (s7, c7)"
    and c7: "bufferBinds c7 = 0" "blendEnables c7 = 0" "blendFuncs c7 = 0"
    and fields7: "currentDbuff s7 = d" "blendMode s7 = dp_blendMode p"
      "entrySize (UBOObject s7) = entrySize (UBOObject s)"
    and ok7: "debugStackOk s7"
    by auto
  let ?s8 = "s7\<lparr>drawCounter := drawCounter s7 + 1\<rparr>"
  let ?calls = "?cache @ c7 @ [DevDrawIndexed (dp_start p) (dp_count p)]"
  from ok7 have "debugStackOk ?s8"
    by (simp add: debugStackOk_def)
  from bump_ok [OF this, of "\<lambda>info. info\<lparr>draws := draws info + 1\<rparr>"]
  obtain s9 where bump: "(if currentDebugDepth ?s8 > 0
               then profileInfo_at (currentDebugDepth ?s8 - 1)
                      (\<lambda>info. info\<lparr>draws := draws info + 1\<rparr>) ?s8 else Inr ?s8) = Inr s9"
    and fields9: "currentDbuff s9 = currentDbuff ?s8" "blendMode s9 = blendMode ?s8"
      "UBOObject s9 = UBOObject ?s8"
    and ok9: "debugStackOk s9"
    by blast
  from up bump have "draw objSize d p s = Inr (s9, ?calls)"
    by (simp add: draw_def Let_def split: if_splits)
  moreover have "bufferBinds ?calls = (if currentDbuff s \<noteq> d then 1 else 0)"
    using cache(1) c7(1) by (simp add: counts_append counts_single)
  moreover have "blendEnables ?calls =
      (if dp_blendMode p \<noteq> BLEND_NONE \<and> blendMode s = BLEND_NONE then 1 else 0)"
    using cache(2) c7(2) by (simp add: counts_append counts_single)
  moreover have "blendFuncs ?calls =
      (if dp_blendMode p \<noteq> blendMode s \<and> dp_blendMode p \<noteq> BLEND_NONE then 1 else 0)"
    using cache(3) c7(3) by (simp add: counts_append counts_single)
  ultimately show ?thesis
    using fields7 fields9 ok9 by simp
qed
lemma drawBatched_pair:
  assumes "objSize \<le> ucast (entrySize (UBOObject s))" and "debugStackOk s"
  shows "\<exists>s' c. drawBatched objSize [A, B] s = Inr (s', c) \<and>
           bufferBinds c = (if currentDbuff s \<noteq> dbuff A then 1 else 0) +
                           (if dbuff A \<noteq> dbuff B then 1 else 0) \<and>
           blendEnables c =
             (if dp_blendMode (drawInfo A) \<noteq> BLEND_NONE \<and> blendMode s = BLEND_NONE then 1 else 0) +
             (if dp_blendMode (drawInfo B) \<noteq> BLEND_NONE \<and> dp_blendMode (drawInfo A) = BLEND_NONE
              then 1 else 0) \<and>
           blendFuncs c =
             (if dp_blendMode (drawInfo A) \<noteq> blendMode s \<and> dp_blendMode (drawInfo A) \<noteq> BLEND_NONE
              then 1 else 0) +
             (if dp_blendMode (drawInfo B) \<noteq> dp_blendMode (drawInfo A) \<and>
                 dp_blendMode (drawInfo B) \<noteq> BLEND_NONE then 1 else 0)"
proof -
  from draw_counts [OF assms, of "dbuff A" "drawInfo A"]
  obtain s1 c1 where d1: "draw objSize (dbuff A) (drawInfo A) s = Inr (s1, c1)"
    and n1: "bufferBinds c1 = (if currentDbuff s \<noteq> dbuff A then 1 else 0)"
      "blendEnables c1 =
         (if dp_blendMode (drawInfo A) \<noteq> BLEND_NONE \<and> blendMode s = BLEND_NONE then 1 else 0)"
      "blendFuncs c1 =
         (if dp_blendMode (drawInfo A) \<noteq> blendMode s \<and> dp_blendMode (drawInfo A) \<noteq> BLEND_NONE
          then 1 else 0)"
    and f1: "currentDbuff s1 = dbuff A" "blendMode s1 = dp_blendMode (drawInfo A)"
      "entrySize (UBOObject s1) = entrySize (UBOObject s)"
    and ok1: "debugStackOk s1"
    by blast
  from assms(1) f1(3) have fits1: "objSize \<le> ucast (entrySize (UBOObject s1))"
    by simp
  from draw_counts [OF fits1 ok1, of "dbuff B" "drawInfo B"]
  obtain s2 c2 where d2: "draw objSize (dbuff B) (drawInfo B) s1 = Inr (s2, c2)"
    and n2: "bufferBinds c2 = (if currentDbuff s1 \<noteq> dbuff B then 1 else 0)"
      "blendEnables c2 =
         (if dp_blendMode (drawInfo B) \<noteq> BLEND_NONE \<and> blendMode s1 = BLEND_NONE then 1 else 0)"
      "blendFuncs c2 =
         (if dp_blendMode (drawInfo B) \<noteq> blendMode s1 \<and> dp_blendMode (drawInfo B) \<noteq> BLEND_NONE
          then 1 else 0)"
    by blast
  from d1 d2 have "drawBatched objSize [A, B] s = Inr (s2, c1 @ c2)"
    by simp
  moreover from n1(1) n2(1) f1 have "bufferBinds (c1 @ c2) =
      (if currentDbuff s \<noteq> dbuff A then 1 else 0) + (if dbuff A \<noteq> dbuff B then 1 else 0)"
    by (simp add: counts_append)
  moreover from n1(2) n2(2) f1 have "blendEnables (c1 @ c2) =
      (if dp_blendMode (drawInfo A) \<noteq> BLEND_NONE \<and> blendMode s = BLEND_NONE then 1 else 0) +
      (if dp_blendMode (drawInfo B) \<noteq> BLEND_NONE \<and> dp_blendMode (drawInfo A) = BLEND_NONE
       then 1 else 0)"
    by (simp add: counts_append)
  moreover from n1(3) n2(3) f1 have "blendFuncs (c1 @ c2) =
      (if dp_blendMode (drawInfo A) \<noteq> blendMode s \<and> dp_blendMode (drawInfo A) \<noteq> BLEND_NONE
       then 1 else 0) +
      (if dp_blendMode (drawInfo B) \<noteq> dp_blendMode (drawInfo A) \<and>
          dp_blendMode (drawInfo B) \<noteq> BLEND_NONE then 1 else 0)"
    by (simp add: counts_append)
  ultimately show ?thesis
    by blast
qed

lemma exampleRenderer_ok:
  "(92 :: size_t) \<le> ucast (entrySize (UBOObject exampleRenderer))"
  "debugStackOk exampleRenderer"
  "currentDbuff exampleRenderer \<noteq> 4096"
  "blendMode exampleRenderer = BLEND_NONE"
  by (simp_all add: exampleRenderer_def OpenGLRenderer_init_def debugStackOk_def
      MAX_DEBUG_DEPTH_def nullptr_def)

text \<open>
  C8, as stated: with A on buffer X with \<^verbatim>\<open>BLEND_ALPHA\<close> and B on buffer X with
  \<^verbatim>\<open>BLEND_ADDITIVE\<close>, two buffer binds and two blend enables occur. On the cache of a
  fresh renderer the pair is drawn with one buffer bind and one blend enable: the buffer
  is already bound at B, and blending is already on (\<^verbatim>\<open>setBlend\<close>, line 361); only
  \<^verbatim>\<open>glBlendFunc\<close> is called twice.
\<close>

theorem C8_counterexample:
  "\<not> isl (drawBatched 92 [exampleDraw BLEND_ALPHA, exampleDraw BLEND_ADDITIVE] exampleRenderer) \<and>
   bufferBinds (callsOf (drawBatched 92 [exampleDraw BLEND_ALPHA, exampleDraw BLEND_ADDITIVE]
     exampleRenderer)) = 1 \<and>
   blendEnables (callsOf (drawBatched 92 [exampleDraw BLEND_ALPHA, exampleDraw BLEND_ADDITIVE]
     exampleRenderer)) = 1 \<and>
   blendFuncs (callsOf (drawBatched 92 [exampleDraw BLEND_ALPHA, exampleDraw BLEND_ADDITIVE]
     exampleRenderer)) = 2"
proof -
  from drawBatched_pair [OF exampleRenderer_ok(1,2),
      of "exampleDraw BLEND_ALPHA" "exampleDraw BLEND_ADDITIVE"]
  obtain s' c where "drawBatched 92 [exampleDraw BLEND_ALPHA, exampleDraw BLEND_ADDITIVE]
      exampleRenderer = Inr (s', c)"
    and "bufferBinds c = 1" and "blendEnables c = 1" and "blendFuncs c = 2"
    using exampleRenderer_ok(3,4) by (auto simp: exampleDraw_def)
  then show ?thesis
    by (simp add: callsOf_def)
qed

text \<open>
  C8, amended: when two draw instructions A (buffer X, \<^verbatim>\<open>BLEND_ALPHA\<close>) and B (buffer X,
  \<^verbatim>\<open>BLEND_ALPHA\<close>) are submitted consecutively from a state cache holding neither buffer
  X nor a blend mode other than \<^verbatim>\<open>BLEND_NONE\<close>, exactly one buffer bind, one blend
  enable and one blend-function call occur for the pair; if instead B uses
  \<^verbatim>\<open>BLEND_ADDITIVE\<close>, still one buffer bind and one blend enable occur, and two
  blend-function calls. (The object uniform block fits a slot of the object buffer and
  the profiling stack is well-formed, so that both draws return.)
\<close>

theorem C8_pair_of_draws:
  assumes "currentDbuff s \<noteq> X" and "blendMode s = BLEND_NONE"
    and "objSize \<le> ucast (entrySize (UBOObject s))" and "debugStackOk s"
    and "dbuff A = X" and "dbuff B = X"
    and "dp_blendMode (drawInfo A) = BLEND_ALPHA"
  shows "(dp_blendMode (drawInfo B) = BLEND_ALPHA \<longrightarrow>
           (\<exists>s' c. drawBatched objSize [A, B] s = Inr (s', c) \<and>
              bufferBinds c = 1 \<and> blendEnables c = 1 \<and> blendFuncs c = 1)) \<and>
         (dp_blendMode (drawInfo B) = BLEND_ADDITIVE \<longrightarrow>
           (\<exists>s' c. drawBatched objSize [A, B] s = Inr (s', c) \<and>
              bufferBinds c = 1 \<and> blendEnables c = 1 \<and> blendFuncs c = 2))"
  using drawBatched_pair [OF assms(3,4), of A B] assms(1,2,5,6,7)
  by auto

theorem C8_pair_of_draws_witness:
  "(\<exists>s' c. drawBatched 92 [exampleDraw BLEND_ALPHA, exampleDraw BLEND_ALPHA] exampleRenderer =
       Inr (s', c) \<and> bufferBinds c = 1 \<and> blendEnables c = 1 \<and> blendFuncs c = 1) \<and>
   (\<exists>s' c. drawBatched 92 [exampleDraw BLEND_ALPHA, exampleDraw BLEND_ADDITIVE] exampleRenderer =
       Inr (s', c) \<and> bufferBinds c = 1 \<and> blendEnables c = 1 \<and> blendFuncs c = 2)"
proof -
  have a: "dbuff (exampleDraw BLEND_ALPHA) = 4096"
      "dp_blendMode (drawInfo (exampleDraw BLEND_ALPHA)) = BLEND_ALPHA"
    by (simp_all add: exampleDraw_def)
  have b: "dbuff (exampleDraw BLEND_ADDITIVE) = 4096"
      "dp_blendMode (drawInfo (exampleDraw BLEND_ADDITIVE)) = BLEND_ADDITIVE"
    by (simp_all add: exampleDraw_def)
  from C8_pair_of_draws [OF exampleRenderer_ok(3,4,1,2) a(1) a(1) a(2)]
    C8_pair_of_draws [OF exampleRenderer_ok(3,4,1,2) a(1) b(1) a(2)] a(2) b(2)
  show ?thesis
    by blast
qed

end
